theory Spec2Isabelle
  imports Main "HOL-Library.Word" "HOL-Library.Signed_Division"
begin

section \<open>Machine integers\<close>

text \<open>
  The offsets, the size and the item identifiers of the ring buffer are Go \<open>int64\<close>
  values: 64-bit words read as two's complement. Addition and subtraction wrap
  around silently, comparisons are signed (\<open><s\<close>, \<open>\<le>s\<close>), and \<open>%\<close> is the
  remainder of the division that truncates towards zero (\<open>smod\<close> on \<open>int\<close>).
  Go's \<open>int\<close> (the \<open>size\<close> argument of \<open>NewRingBuffer\<close>) is taken as 64 bits wide.
\<close>

type_synonym int64 = "64 word"

definition go_rem :: "int64 \<Rightarrow> int64 \<Rightarrow> int64" where
  "go_rem a b = word_of_int (sint a smod sint b)"

text \<open>The run-time panics the ring buffer's code can raise.\<close>

datatype panic = DivideByZero | IndexOutOfRange | MakesliceOutOfRange | MissingCase

text \<open>
  A call either returns a value, panics, or blocks forever (a \<open>cond.Wait()\<close> that no
  \<open>Broadcast\<close> ever ends).
\<close>

datatype 'a exec = Returns 'a | Panics panic | Blocks

text \<open>An index expression \<open>xs[i]\<close> panics unless \<open>0 \<le> i < len(xs)\<close>.\<close>

definition index_ok :: "'a list \<Rightarrow> int64 \<Rightarrow> bool" where
  "index_ok xs i \<longleftrightarrow> 0 \<le> sint i \<and> sint i < int (length xs)"

section \<open>The ring buffer\<close>

text \<open>\<open>type Item struct { Id int64 }\<close>; a slot of the buffer is a \<open>*Item\<close>, \<open>nil\<close> being \<open>None\<close>.\<close>

record Item =
  Id' :: int64

type_synonym item_ptr = "Item option"

text \<open>
  \<open>type RingBuffer struct\<close>, without the lock and the condition variable. \<open>Write\<close>
  takes the write side of \<open>rw\<close> and never runs while a \<open>Read\<close> holds the read side.
  \<open>Reset\<close> takes \<open>cond.L\<close>, which is the read side (\<open>rw.RLocker()\<close>), as \<open>Read\<close> does: the
  lock does not keep a \<open>Reset\<close> from running in the midst of a \<open>Read\<close>. \<open>Read\<close> below is
  a \<open>Read\<close> during which no \<open>Reset\<close> runs, but for its wait, where what the woken
  reader finds is a parameter; \<open>Read_reset\<close> is a \<open>Read\<close> with a \<open>Reset\<close> running between
  two of its lines.
\<close>

record RingBuffer =
  rb_buffer :: "item_ptr list"
  rb_size :: int64
  rb_start :: int64
  rb_end :: int64

text \<open>
  \<open>NewRingBuffer(size, start)\<close>: \<open>make([]*Item, size)\<close> panics on a negative length
  and fills the slice with \<open>nil\<close>. (A length too large to allocate, where the runtime
  panics or stops for lack of memory, is outside the model: the model has the buffer.)
\<close>

definition NewRingBuffer :: "int64 \<Rightarrow> int64 \<Rightarrow> panic + RingBuffer" where
  "NewRingBuffer sz start =
     (if sint sz < 0 then Inl MakesliceOutOfRange
      else Inr \<lparr>rb_buffer = replicate (nat (sint sz)) None,
                rb_size = sz, rb_start = start, rb_end = start\<rparr>)"

text \<open>
  \<open>Write(item)\<close>: \<open>rb.end % rb.size\<close> panics when the size is 0, the store panics when
  the remainder is negative (a negative \<open>rb.end\<close>); \<open>rb.start++\<close> and \<open>rb.end++\<close> wrap.
\<close>

definition Write :: "RingBuffer \<Rightarrow> item_ptr \<Rightarrow> panic + RingBuffer" where
  "Write rb item =
     (if rb_size rb = 0 then Inl DivideByZero
      else let bufOffset = go_rem (rb_end rb) (rb_size rb) in
        if \<not> index_ok (rb_buffer rb) bufOffset then Inl IndexOutOfRange
        else Inr (rb\<lparr>rb_buffer := (rb_buffer rb)[nat (sint bufOffset) := item],
                     rb_start := (if rb_end rb - rb_start rb = rb_size rb
                                  then rb_start rb + 1 else rb_start rb),
                     rb_end := rb_end rb + 1\<rparr>))"

text \<open>
  \<open>Reset(start)\<close> moves both offsets and leaves the slots as they are. It holds
  \<open>cond.L\<close>, the read side of the lock, while it does.
\<close>

definition Reset :: "RingBuffer \<Rightarrow> int64 \<Rightarrow> RingBuffer" where
  "Reset rb start = rb\<lparr>rb_start := start, rb_end := start\<rparr>"

text \<open>
  The errors \<open>Read\<close> returns. \<open>ErrBeforeBuffer\<close> is wrapped with a message that
  carries \<open>start\<close>, \<open>rb.start\<close> and their distance; \<open>Canceled\<close> and
  \<open>DeadlineExceeded\<close> are the two values of \<open>ctx.Err()\<close>.
\<close>

datatype error =
    ErrBeforeBuffer int64 int64 int64
  | ErrAfterBuffer
  | Canceled
  | DeadlineExceeded

text \<open>
  \<open>endOffset(start)\<close>. The third case waits on the condition variable: \<open>wake\<close> is the
  buffer as the reader finds it when a \<open>Broadcast\<close> has woken it and it holds the lock
  again, \<open>None\<close> when no \<open>Broadcast\<close> ever comes. The buffer the caller goes on with is
  returned with the result.
\<close>

definition endOffset ::
  "RingBuffer \<Rightarrow> RingBuffer option \<Rightarrow> int64 \<Rightarrow> (RingBuffer \<times> int64 \<times> error option) exec" where
  "endOffset rb wake start =
     (if start <s rb_start rb then
        Returns (rb, - 1, Some (ErrBeforeBuffer start (rb_start rb) (rb_start rb - start)))
      else if start <s rb_end rb then Returns (rb, rb_end rb, None)
      else if start = rb_end rb then
        (case wake of
           None \<Rightarrow> Blocks
         | Some rb' \<Rightarrow> Returns (rb', rb_end rb', None))
      else if rb_end rb \<le>s start then Returns (rb, - 1, Some ErrAfterBuffer)
      else Panics MissingCase)"

text \<open>The loop of \<open>Read\<close>: \<open>for ; start < end; start++ { ... }\<close>.\<close>

function read_items ::
  "RingBuffer \<Rightarrow> int64 \<Rightarrow> int64 \<Rightarrow> item_ptr list \<Rightarrow> (int64 \<times> item_ptr list) exec" where
  "read_items rb start end' items =
     (if start <s end' then
        (if rb_size rb = 0 then Panics DivideByZero
         else let bufOffset = go_rem start (rb_size rb) in
           if \<not> index_ok (rb_buffer rb) bufOffset then Panics IndexOutOfRange
           else read_items rb (start + 1) end'
                  (items @ [rb_buffer rb ! nat (sint bufOffset)]))
      else Returns (start, items))"
  by pat_completeness auto

lemma sint_succ_less:
  fixes a b :: int64
  assumes "a <s b"
  shows "sint (a + 1) = sint a + 1"
proof -
  have "sint b < 2 ^ 63"
    using sint_lt [of b] by simp
  moreover have "- (2 ^ 63) \<le> sint a"
    using sint_ge [of a] by simp
  moreover have "sint a < sint b"
    using assms by (simp add: word_sless_alt)
  ultimately have "signed_take_bit 63 (sint a + 1) = sint a + 1"
    by (intro signed_take_bit_int_eq_self) auto
  then show ?thesis
    by (simp add: sint_word_ariths)
qed

termination read_items
proof (relation "measure (\<lambda>(rb, start, e, items). nat (sint e - sint start))")
  show "wf (measure (\<lambda>(rb, start, e, items). nat (sint e - sint start)))"
    by simp
next
  fix rb :: RingBuffer and start end' :: int64 and items :: "item_ptr list" and x :: int64
  assume less: "start <s end'"
  have "sint start < sint end'"
    using less by (simp add: word_sless_alt)
  then show "((rb, start + 1, end', items @ [rb_buffer rb ! nat (sint x)]),
              (rb, start, end', items))
             \<in> measure (\<lambda>(rb, start, e, items). nat (sint e - sint start))"
    using sint_succ_less [OF less] by simp
qed

declare read_items.simps [simp del]

text \<open>
  \<open>Read(ctx, start)\<close>. \<open>ctx\<close> is the value of \<open>ctx.Err()\<close> when the function checks it.
  \<open>make([]*Item, 0, end-start)\<close> panics on a negative capacity. (A capacity too large
  to allocate is outside the model, as for \<open>NewRingBuffer\<close>.) A \<open>nil\<close> slice and an
  empty slice are both the empty list.
\<close>

definition Read ::
  "RingBuffer \<Rightarrow> RingBuffer option \<Rightarrow> error option \<Rightarrow> int64
     \<Rightarrow> (int64 \<times> item_ptr list \<times> error option) exec" where
  "Read rb wake ctx start =
     (case endOffset rb wake start of
        Blocks \<Rightarrow> Blocks
      | Panics p \<Rightarrow> Panics p
      | Returns (rb', end', err) \<Rightarrow>
          if err \<noteq> None then Returns (start, [], err)
          else if ctx \<noteq> None then Returns (start, [], ctx)
          else if sint (end' - start) < 0 then Panics MakesliceOutOfRange
          else (case read_items rb' start end' [] of
                  Returns (start', items) \<Rightarrow> Returns (start', items, None)
                | Panics p \<Rightarrow> Panics p
                | Blocks \<Rightarrow> Blocks))"



section \<open>Sequences of writer operations\<close>

text \<open>
  The writer's side of the buffer is a sequence of \<open>Write\<close> and \<open>Reset\<close> calls; a panic
  ends it.
\<close>

datatype op = OpWrite item_ptr | OpReset int64

fun apply_op :: "RingBuffer \<Rightarrow> op \<Rightarrow> panic + RingBuffer" where
  "apply_op rb (OpWrite item) = Write rb item"
| "apply_op rb (OpReset start) = Inr (Reset rb start)"

fun run :: "RingBuffer \<Rightarrow> op list \<Rightarrow> panic + RingBuffer" where
  "run rb [] = Inr rb"
| "run rb (x # xs) = (case apply_op rb x of Inl p \<Rightarrow> Inl p | Inr rb' \<Rightarrow> run rb' xs)"

text \<open>
  \<open>no_wrap rb ops\<close>: no \<open>Write\<close> of the sequence is made at \<open>rb.end = 2^63 - 1\<close>, where
  \<open>rb.end++\<close> wraps around to \<open>-2^63\<close>.
\<close>

fun no_wrap :: "RingBuffer \<Rightarrow> op list \<Rightarrow> bool" where
  "no_wrap rb [] = True"
| "no_wrap rb (OpReset start # xs) = no_wrap (Reset rb start) xs"
| "no_wrap rb (OpWrite item # xs) =
     (rb_end rb \<noteq> 0x7FFFFFFFFFFFFFFF \<and>
      (case Write rb item of Inl p \<Rightarrow> True | Inr rb' \<Rightarrow> no_wrap rb' xs))"

text \<open>The window invariant: \<open>start \<le> end\<close> and \<open>end - start \<le> N\<close>, on the signed values.\<close>

definition window_inv :: "RingBuffer \<Rightarrow> bool" where
  "window_inv rb \<longleftrightarrow>
     sint (rb_start rb) \<le> sint (rb_end rb) \<and>
     sint (rb_end rb) - sint (rb_start rb) \<le> sint (rb_size rb)"




section \<open>The sequencer\<close>

text \<open>
  What \<open>waitItem\<close> hands to \<open>WriteItems\<close>: an error, nothing (the wait timed out and the
  connection is pinged), or an item.
\<close>

datatype wait_result = WaitError | WaitNothing | WaitItem Item

text \<open>The calls \<open>WriteItems\<close> makes on the buffer, in order.\<close>

datatype call = CallReset int64 | CallWrite Item

text \<open>Why the loop has stopped: \<open>log.Fatalf\<close>, or a panic of \<open>Write\<close>.\<close>

datatype halt = Fatal | Panicked panic

record sequencer =
  lastId :: int64
  ring :: RingBuffer
  calls :: "call list"
  halted :: "halt option"

text \<open>\<open>var lastId int64 = -1\<close>, before the loop.\<close>

definition WriteItems_init :: "RingBuffer \<Rightarrow> sequencer" where
  "WriteItems_init rb = \<lparr>lastId = - 1, ring = rb, calls = [], halted = None\<rparr>"

text \<open>
  One iteration of the loop of \<open>WriteItems\<close>. \<open>lastId = item.Id\<close> is reached only when
  the calls have returned.
\<close>

definition WriteItems_step :: "sequencer \<Rightarrow> wait_result \<Rightarrow> sequencer" where
  "WriteItems_step s w =
     (if halted s \<noteq> None then s
      else case w of
        WaitError \<Rightarrow> s\<lparr>halted := Some Fatal\<rparr>
      | WaitNothing \<Rightarrow> s
      | WaitItem item \<Rightarrow>
          if Id' item = lastId s + 1 then
            (case Write (ring s) (Some item) of
               Inl p \<Rightarrow> s\<lparr>calls := calls s @ [CallWrite item], halted := Some (Panicked p)\<rparr>
             | Inr rb' \<Rightarrow> s\<lparr>lastId := Id' item, ring := rb',
                              calls := calls s @ [CallWrite item]\<rparr>)
          else
            (case Write (Reset (ring s) (Id' item)) (Some item) of
               Inl p \<Rightarrow> s\<lparr>ring := Reset (ring s) (Id' item),
                             calls := calls s @ [CallReset (Id' item), CallWrite item],
                             halted := Some (Panicked p)\<rparr>
             | Inr rb' \<Rightarrow> s\<lparr>lastId := Id' item, ring := rb',
                              calls := calls s @ [CallReset (Id' item), CallWrite item]\<rparr>))"

definition WriteItems :: "RingBuffer \<Rightarrow> wait_result list \<Rightarrow> sequencer" where
  "WriteItems rb ws = foldl WriteItems_step (WriteItems_init rb) ws"

text \<open>The \<open>Reset\<close> calls among the calls made.\<close>

fun resets :: "call list \<Rightarrow> int64 list" where
  "resets [] = []"
| "resets (CallReset start # cs) = start # resets cs"
| "resets (CallWrite item # cs) = resets cs"

section \<open>Example buffers\<close>

text \<open>\<open>NewRingBuffer(10, start)\<close>, the buffer \<open>main\<close> creates (there with \<open>start = 0\<close>).\<close>

definition rb_at :: "int64 \<Rightarrow> RingBuffer" where
  "rb_at start =
     \<lparr>rb_buffer = replicate 10 None, rb_size = 10, rb_start = start, rb_end = start\<rparr>"

text \<open>That buffer after the items 0 and 1 have been written to it.\<close>

definition rb_two :: RingBuffer where
  "rb_two =
     \<lparr>rb_buffer = [Some \<lparr>Id' = 0\<rparr>, Some \<lparr>Id' = 1\<rparr>] @ replicate 8 None,
      rb_size = 10, rb_start = 0, rb_end = 2\<rparr>"

text \<open>That buffer after \<open>Reset(5)\<close> and the write of item 5.\<close>

definition rb_gap :: RingBuffer where
  "rb_gap =
     \<lparr>rb_buffer = replicate 5 None @ [Some \<lparr>Id' = 5\<rparr>] @ replicate 4 None,
      rb_size = 10, rb_start = 5, rb_end = 6\<rparr>"

text \<open>The buffer created at offset 5 after the items 5 to 8 have been written to it.\<close>

definition rb_four :: RingBuffer where
  "rb_four =
     \<lparr>rb_buffer = replicate 5 None @
        [Some \<lparr>Id' = 5\<rparr>, Some \<lparr>Id' = 6\<rparr>, Some \<lparr>Id' = 7\<rparr>, Some \<lparr>Id' = 8\<rparr>, None],
      rb_size = 10, rb_start = 5, rb_end = 9\<rparr>"


text \<open>A stream of notifications with the given identifiers.\<close>

definition items_of :: "int64 list \<Rightarrow> wait_result list" where
  "items_of ids = map (\<lambda>i. WaitItem \<lparr>Id' = i\<rparr>) ids"

text \<open>\<open>NewRingBuffer(2, 0)\<close>, three writes on it, and the buffer they leave.\<close>

definition rb_small :: RingBuffer where
  "rb_small = \<lparr>rb_buffer = replicate 2 None, rb_size = 2, rb_start = 0, rb_end = 0\<rparr>"

definition three_writes :: "op list" where
  "three_writes =
     [OpWrite (Some \<lparr>Id' = 0\<rparr>), OpWrite (Some \<lparr>Id' = 1\<rparr>), OpWrite (Some \<lparr>Id' = 2\<rparr>)]"

definition rb_rotated :: RingBuffer where
  "rb_rotated =
     \<lparr>rb_buffer = [Some \<lparr>Id' = 2\<rparr>, Some \<lparr>Id' = 1\<rparr>], rb_size = 2, rb_start = 1, rb_end = 3\<rparr>"

text \<open>
  The buffer of \<open>main\<close> after \<open>Reset(2^63 - 1)\<close> and one write, which is what the
  sequencer does with a first item of identifier \<open>2^63 - 1\<close>.
\<close>

definition rb_wrapped :: RingBuffer where
  "rb_wrapped =
     \<lparr>rb_buffer = replicate 7 None @ [Some \<lparr>Id' = 0x7FFFFFFFFFFFFFFF\<rparr>] @ replicate 2 None,
      rb_size = 10, rb_start = 0x7FFFFFFFFFFFFFFF, rb_end = 0x8000000000000000\<rparr>"

section \<open>The slots of the window\<close>





section \<open>Basic facts\<close>

lemma NewRingBuffer_main: "NewRingBuffer 10 start = Inr (rb_at start)"
  by (simp add: NewRingBuffer_def rb_at_def)

lemma rb_two_reached:
  "run (rb_at 0) [OpWrite (Some \<lparr>Id' = 0\<rparr>), OpWrite (Some \<lparr>Id' = 1\<rparr>)] = Inr rb_two"
  by code_simp

lemma rb_gap_reached:
  "run (rb_at 0) [OpReset 5, OpWrite (Some \<lparr>Id' = 5\<rparr>)] = Inr rb_gap"
  by code_simp

text \<open>The loop only moves \<open>start\<close> forwards.\<close>

lemma read_items_ge:
  "read_items rb start e acc = Returns (next, items) \<Longrightarrow> start \<le>s next"
proof (induction rb start e acc rule: read_items.induct)
  case (1 rb start e acc)
  show ?case
  proof (cases "start <s e")
    case True
    with "1.prems" have rec: "read_items rb (start + 1) e
        (acc @ [rb_buffer rb ! nat (sint (go_rem start (rb_size rb)))]) = Returns (next, items)"
      and ok: "rb_size rb \<noteq> 0" "index_ok (rb_buffer rb) (go_rem start (rb_size rb))"
      by (auto simp: read_items.simps [of rb start e acc] Let_def split: if_splits)
    from "1.IH" [OF True ok(1) refl _ rec] ok(2) have "start + 1 \<le>s next"
      by simp
    then show ?thesis
      using sint_succ_less [OF True] by (simp add: word_sle_eq)
  next
    case False
    with "1.prems" show ?thesis
      by (simp add: read_items.simps [of rb start e acc])
  qed
qed

text \<open>Timeouts of \<open>waitItem\<close> leave the sequencer as it is.\<close>

lemma WriteItems_nothing:
  "foldl WriteItems_step s (replicate n WaitNothing) = s"
  by (induction n) (simp_all add: WriteItems_step_def)

section \<open>Read against the window at call time\<close>

text \<open>
  Claim C2, as the code has it. A \<open>Read\<close> of an offset below the window start returns
  the requested offset itself, not the window start \<open>A\<close>: \<open>endOffset\<close> yields \<open>-1\<close> and
  the error, and \<open>Read\<close> answers every error with \<open>return start, nil, err\<close>. In the
  buffer created at offset 5, \<open>Read(3)\<close> returns 3 and not 5.
\<close>

theorem Read_before_buffer_returns_start:
  "3 <s rb_start (rb_at 5) \<and>
   Read (rb_at 5) None None 3 = Returns (3, [], Some (ErrBeforeBuffer 3 5 2)) \<and>
   Read (rb_at 5) None None 3 \<noteq> Returns (rb_start (rb_at 5), [], Some (ErrBeforeBuffer 3 5 2))"
  by code_simp

text \<open>
  Claim C2, amended: for every \<open>Read(requestedStart)\<close> with \<open>requestedStart\<close> below the
  window start \<open>A\<close> at call time, \<open>Read\<close> returns \<open>requestedStart\<close> unchanged, no items,
  and the fell-behind error, whose message carries \<open>A\<close>. It does so whatever the
  context's state, and without waiting.
\<close>

theorem Read_before_buffer:
  "start <s rb_start rb \<Longrightarrow>
   Read rb wake ctx start =
     Returns (start, [], Some (ErrBeforeBuffer start (rb_start rb) (rb_start rb - start)))"
  by (simp add: Read_def endOffset_def)

theorem Read_before_buffer_witness:
  "3 <s rb_start (rb_at 5) \<and>
   Read (rb_at 5) None (Some Canceled) 3 = Returns (3, [], Some (ErrBeforeBuffer 3 5 2))"
proof -
  have h: "3 <s rb_start (rb_at 5)"
    by (simp add: rb_at_def)
  show ?thesis
    using h Read_before_buffer [OF h, of None "Some Canceled"] by (simp add: rb_at_def)
qed

text \<open>
  Claim C10: when the context is already cancelled and the requested offset lies inside
  the window, \<open>A \<le> requestedStart < B\<close>, \<open>Read\<close> returns the requested offset, no
  items and the context's error: the check of \<open>ctx.Err()\<close> comes before the items are
  collected, on the path that does not wait as well.
\<close>

theorem Read_cancelled_with_items:
  "rb_start rb \<le>s start \<Longrightarrow> start <s rb_end rb \<Longrightarrow>
   Read rb wake (Some e) start = Returns (start, [], Some e)"
  by (simp add: Read_def endOffset_def word_sle_eq word_sless_alt)

theorem Read_cancelled_with_items_witness:
  "rb_start rb_two \<le>s 0 \<and> 0 <s rb_end rb_two \<and>
   Read rb_two None (Some Canceled) 0 = Returns (0, [], Some Canceled)"
proof -
  have lo: "rb_start rb_two \<le>s 0" and hi: "0 <s rb_end rb_two"
    by (simp_all add: rb_two_def word_sle_eq word_sless_alt)
  show ?thesis
    using lo hi Read_cancelled_with_items [OF lo hi, of None Canceled] by simp
qed

text \<open>
  Claim C8: whenever \<open>Read\<close> returns without an error, the next offset it returns is
  greater than or equal to the requested one, whatever the buffer at call time and
  whatever the buffer found after a wait. (Where a \<open>Reset\<close> has moved the window below
  the requested offset during the wait, \<open>Read\<close> does not return: it panics.)
\<close>

theorem Read_next_offset_ge:
  "Read rb wake ctx start = Returns (next, items, None) \<Longrightarrow> start \<le>s next"
  by (auto simp: Read_def split: exec.splits if_splits prod.splits dest: read_items_ge)

theorem Read_next_offset_ge_witness:
  "Read rb_two None None 1 = Returns (2, [Some \<lparr>Id' = 1\<rparr>], None) \<and> (1 :: int64) \<le>s 2 \<and>
   Read rb_two (Some (Reset rb_two 2)) None 2 = Returns (2, [], None) \<and> (2 :: int64) \<le>s 2"
proof -
  have h: "Read rb_two None None 1 = Returns (2, [Some \<lparr>Id' = 1\<rparr>], None)"
    and w: "Read rb_two (Some (Reset rb_two 2)) None 2 = Returns (2, [], None)"
    by code_simp+
  show ?thesis
    using h w Read_next_offset_ge [OF h] Read_next_offset_ge [OF w] by simp
qed

section \<open>Read after a wait\<close>

text \<open>
  Claim C1, at a failing input. The buffer is created at offset 0 and \<open>Read(0)\<close> waits;
  the writer's \<open>Reset(5)\<close> wakes it, so that the window is \<open>[5, 5)\<close> and the requested
  offset is below it. \<open>endOffset\<close> returns the new \<open>rb.end\<close> without looking at the
  window again, and \<open>Read\<close> returns 5, five slots and no error, where the claim has
  the fell-behind error and no items.
\<close>

theorem Read_woken_behind_window:
  "Read (rb_at 0) None None 0 = Blocks \<and>
   0 <s rb_start (Reset (rb_at 0) 5) \<and>
   Read (rb_at 0) (Some (Reset (rb_at 0) 5)) None 0 =
     Returns (5, [None, None, None, None, None], None)"
  by code_simp

text \<open>
  Claim C3, at a failing input. \<open>Read(0)\<close> waits on the buffer created at offset 0; the
  writer calls \<open>Reset(5)\<close> and writes item 5, so that the window is \<open>[5, 6)\<close>. \<open>Read\<close>
  returns, without an error, the slots of the offsets 0 to 4, which lie outside the
  window and were never written (\<open>nil\<close>), before item 5.
\<close>

theorem Read_woken_returns_unwritten_slots:
  "run (rb_at 0) [OpReset 5, OpWrite (Some \<lparr>Id' = 5\<rparr>)] = Inr rb_gap \<and>
   rb_start rb_gap = 5 \<and> rb_end rb_gap = 6 \<and>
   Read (rb_at 0) (Some rb_gap) None 0 =
     Returns (6, [None, None, None, None, None, Some \<lparr>Id' = 5\<rparr>], None)"
  by code_simp

text \<open>
  Claim C5, at a failing input. \<open>Read(5)\<close> waits on the buffer created at offset 5; the
  writer's \<open>Reset(2)\<close> wakes it, so that the window is \<open>[2, 2)\<close> and the requested offset
  is beyond its end. \<open>endOffset\<close> returns 2 and no error, and
  \<open>make([]*Item, 0, end-start)\<close> panics on the capacity \<open>-3\<close>, where the claim has the
  requested offset returned with the too-far-ahead error.
\<close>

theorem Read_woken_ahead_panics:
  "Read (rb_at 5) None None 5 = Blocks \<and>
   rb_end (Reset (rb_at 5) 2) <s 5 \<and>
   Read (rb_at 5) (Some (Reset (rb_at 5) 2)) None 5 = Panics MakesliceOutOfRange"
  by code_simp

section \<open>The sequencer's calls\<close>

text \<open>
  Claim C4, as the code has it. \<open>lastId\<close> starts at \<open>-1\<close>, so a first item with
  identifier 0 is the one expected: it is written and no \<open>Reset\<close> is called. And a
  first item with identifier \<open>-3\<close> is reset to and written, but the \<open>Write\<close> panics on
  the index \<open>-3 % 10\<close>, and \<open>lastId\<close> is never set.
\<close>

theorem WriteItems_first_item_zero:
  "calls (WriteItems (rb_at 0) [WaitItem \<lparr>Id' = 0\<rparr>]) = [CallWrite \<lparr>Id' = 0\<rparr>] \<and>
   calls (WriteItems (rb_at 0) [WaitItem \<lparr>Id' = - 3\<rparr>]) =
     [CallReset (- 3), CallWrite \<lparr>Id' = - 3\<rparr>] \<and>
   halted (WriteItems (rb_at 0) [WaitItem \<lparr>Id' = - 3\<rparr>]) = Some (Panicked IndexOutOfRange) \<and>
   lastId (WriteItems (rb_at 0) [WaitItem \<lparr>Id' = - 3\<rparr>]) = - 1"
  by code_simp

text \<open>
  Claim C4, amended: for the first item \<open>i\<close> the sequencer receives after startup,
  after any number of timeouts, if \<open>i.id\<close> is not 0 the sequencer calls \<open>Reset(i.id)\<close>
  and then \<open>Write(i)\<close>; if \<open>i.id\<close> is 0 it calls \<open>Write(i)\<close> alone. When that \<open>Write\<close>
  returns, the sequencer sets \<open>lastId = i.id\<close> and goes on with the buffer written;
  when it panics, the loop ends there and \<open>lastId\<close> is still \<open>-1\<close>.
\<close>

theorem WriteItems_first_item:
  "calls (WriteItems rb (replicate n WaitNothing @ [WaitItem item])) =
     (if Id' item = 0 then [CallWrite item] else [CallReset (Id' item), CallWrite item]) \<and>
   (case Write (if Id' item = 0 then rb else Reset rb (Id' item)) (Some item) of
      Inr rb' \<Rightarrow>
        halted (WriteItems rb (replicate n WaitNothing @ [WaitItem item])) = None \<and>
        lastId (WriteItems rb (replicate n WaitNothing @ [WaitItem item])) = Id' item \<and>
        ring (WriteItems rb (replicate n WaitNothing @ [WaitItem item])) = rb'
    | Inl p \<Rightarrow>
        halted (WriteItems rb (replicate n WaitNothing @ [WaitItem item])) = Some (Panicked p) \<and>
        lastId (WriteItems rb (replicate n WaitNothing @ [WaitItem item])) = - 1)"
  by (simp add: WriteItems_def WriteItems_nothing WriteItems_step_def WriteItems_init_def
      split: sum.splits)

theorem WriteItems_first_item_witness:
  "calls (WriteItems (rb_at 0) (replicate 2 WaitNothing @ [WaitItem \<lparr>Id' = 7\<rparr>])) =
     [CallReset 7, CallWrite \<lparr>Id' = 7\<rparr>] \<and>
   halted (WriteItems (rb_at 0) (replicate 2 WaitNothing @ [WaitItem \<lparr>Id' = 7\<rparr>])) = None \<and>
   lastId (WriteItems (rb_at 0) (replicate 2 WaitNothing @ [WaitItem \<lparr>Id' = 7\<rparr>])) = 7 \<and>
   calls (WriteItems (rb_at 0) (replicate 2 WaitNothing @ [WaitItem \<lparr>Id' = - 3\<rparr>])) =
     [CallReset (- 3), CallWrite \<lparr>Id' = - 3\<rparr>] \<and>
   halted (WriteItems (rb_at 0) (replicate 2 WaitNothing @ [WaitItem \<lparr>Id' = - 3\<rparr>])) =
     Some (Panicked IndexOutOfRange) \<and>
   lastId (WriteItems (rb_at 0) (replicate 2 WaitNothing @ [WaitItem \<lparr>Id' = - 3\<rparr>])) = - 1"
proof -
  have ok: "Write (Reset (rb_at 0) 7) (Some \<lparr>Id' = 7\<rparr>) =
      Inr \<lparr>rb_buffer = replicate 7 None @ [Some \<lparr>Id' = 7\<rparr>] @ replicate 2 None,
           rb_size = 10, rb_start = 7, rb_end = 8\<rparr>"
    by code_simp
  have bad: "Write (Reset (rb_at 0) (- 3)) (Some \<lparr>Id' = - 3\<rparr>) = Inl IndexOutOfRange"
    by code_simp
  show ?thesis
    using ok bad WriteItems_first_item [of "rb_at 0" 2 "\<lparr>Id' = 7\<rparr>"]
      WriteItems_first_item [of "rb_at 0" 2 "\<lparr>Id' = - 3\<rparr>"]
    by auto
qed

text \<open>
  Claim C9: fed the identifiers 0, 1, 2, 4, 5 from its initial state, on the buffer
  \<open>main\<close> creates, the sequencer calls \<open>Reset\<close> exactly once, with 4, and runs on (it
  only writes and resets, and no call fails); fed 0, 1, 2, 3 it calls no \<open>Reset\<close>.
\<close>

theorem WriteItems_gap:
  "calls (WriteItems (rb_at 0) (items_of [0, 1, 2, 4, 5])) =
     [CallWrite \<lparr>Id' = 0\<rparr>, CallWrite \<lparr>Id' = 1\<rparr>, CallWrite \<lparr>Id' = 2\<rparr>,
      CallReset 4, CallWrite \<lparr>Id' = 4\<rparr>, CallWrite \<lparr>Id' = 5\<rparr>] \<and>
   resets (calls (WriteItems (rb_at 0) (items_of [0, 1, 2, 4, 5]))) = [4] \<and>
   halted (WriteItems (rb_at 0) (items_of [0, 1, 2, 4, 5])) = None \<and>
   resets (calls (WriteItems (rb_at 0) (items_of [0, 1, 2, 3]))) = [] \<and>
   halted (WriteItems (rb_at 0) (items_of [0, 1, 2, 3])) = None"
  by code_simp

section \<open>The window invariant\<close>

text \<open>Where the signed values do not wrap, the word operations are those of the integers.\<close>

lemma sint_succ_no_wrap:
  fixes a :: int64
  assumes "a \<noteq> 0x7FFFFFFFFFFFFFFF"
  shows "sint (a + 1) = sint a + 1"
proof -
  have "sint a \<noteq> sint (0x7FFFFFFFFFFFFFFF :: int64)"
    using assms by (simp add: word_eq_iff_signed [where ?'a = int])
  then have "sint a \<noteq> 2 ^ 63 - 1"
    by simp
  moreover have "sint a < 2 ^ 63"
    using sint_lt [of a] by simp
  moreover have "- (2 ^ 63) \<le> sint a"
    using sint_ge [of a] by simp
  ultimately have "signed_take_bit 63 (sint a + 1) = sint a + 1"
    by (intro signed_take_bit_int_eq_self) auto
  then show ?thesis
    by (simp add: sint_word_ariths)
qed

lemma sint_diff_window:
  fixes a b :: int64
  assumes "sint a \<le> sint b"
  shows "sint b - sint a < 2 ^ 63 \<Longrightarrow> sint (b - a) = sint b - sint a"
proof -
  assume "sint b - sint a < 2 ^ 63"
  then have "signed_take_bit 63 (sint b - sint a) = sint b - sint a"
    using assms by (intro signed_take_bit_int_eq_self) auto
  then show ?thesis
    by (simp add: sint_word_ariths)
qed

lemma window_full_iff:
  assumes "window_inv rb"
  shows "rb_end rb - rb_start rb = rb_size rb \<longleftrightarrow>
         sint (rb_end rb) - sint (rb_start rb) = sint (rb_size rb)"
proof -
  have "sint (rb_size rb) < 2 ^ 63"
    using sint_lt [of "rb_size rb"] by simp
  with assms have "sint (rb_end rb - rb_start rb) = sint (rb_end rb) - sint (rb_start rb)"
    by (intro sint_diff_window) (auto simp: window_inv_def)
  then show ?thesis
    by (simp add: word_eq_iff_signed [where ?'a = int, of "rb_end rb - rb_start rb"])
qed

lemma Write_window_inv:
  assumes inv: "window_inv rb"
    and w: "Write rb item = Inr rb'"
    and nw: "rb_end rb \<noteq> 0x7FFFFFFFFFFFFFFF"
  shows "window_inv rb'"
proof -
  have nz: "rb_size rb \<noteq> 0"
    using w by (auto simp: Write_def split: if_splits)
  have e: "sint (rb_end rb + 1) = sint (rb_end rb) + 1"
    by (rule sint_succ_no_wrap [OF nw])
  show ?thesis
  proof (cases "rb_end rb - rb_start rb = rb_size rb")
    case True
    then have full: "sint (rb_end rb) - sint (rb_start rb) = sint (rb_size rb)"
      using window_full_iff [OF inv] by simp
    have "sint (rb_size rb) \<noteq> 0"
      using nz by (simp add: word_eq_iff_signed [where ?'a = int])
    with full inv have "rb_start rb <s rb_end rb"
      by (simp add: window_inv_def word_sless_alt)
    then have s: "sint (rb_start rb + 1) = sint (rb_start rb) + 1"
      by (rule sint_succ_less)
    from w True have "rb_start rb' = rb_start rb + 1" "rb_end rb' = rb_end rb + 1"
      "rb_size rb' = rb_size rb"
      by (auto simp: Write_def Let_def split: if_splits)
    then show ?thesis
      using inv full e s by (simp add: window_inv_def)
  next
    case False
    then have part: "sint (rb_end rb) - sint (rb_start rb) \<noteq> sint (rb_size rb)"
      using window_full_iff [OF inv] by simp
    from w False have "rb_start rb' = rb_start rb" "rb_end rb' = rb_end rb + 1"
      "rb_size rb' = rb_size rb"
      by (auto simp: Write_def Let_def split: if_splits)
    then show ?thesis
      using inv part e by (simp add: window_inv_def)
  qed
qed

lemma Reset_window_inv: "window_inv rb \<Longrightarrow> window_inv (Reset rb start)"
  by (simp add: window_inv_def Reset_def)

lemma NewRingBuffer_window_inv: "NewRingBuffer sz start = Inr rb \<Longrightarrow> window_inv rb"
  by (auto simp: NewRingBuffer_def window_inv_def split: if_splits)

lemma run_window_inv:
  "window_inv rb \<Longrightarrow> no_wrap rb ops \<Longrightarrow> run rb ops = Inr rb' \<Longrightarrow> window_inv rb'"
proof (induction ops arbitrary: rb)
  case Nil
  then show ?case by simp
next
  case (Cons x xs)
  show ?case
  proof (cases x)
    case (OpWrite item)
    with Cons.prems obtain rb1 where w: "Write rb item = Inr rb1" and r: "run rb1 xs = Inr rb'"
      by (auto split: sum.splits)
    from Cons.prems OpWrite w have nw: "rb_end rb \<noteq> 0x7FFFFFFFFFFFFFFF" and rest: "no_wrap rb1 xs"
      by auto
    from Write_window_inv [OF Cons.prems(1) w nw] have "window_inv rb1" .
    then show ?thesis
      using Cons.IH rest r by blast
  next
    case (OpReset start)
    with Cons.prems have "no_wrap (Reset rb start) xs" "run (Reset rb start) xs = Inr rb'"
      by auto
    then show ?thesis
      using Cons.IH Reset_window_inv [OF Cons.prems(1)] by blast
  qed
qed

text \<open>
  Claim C7, as the code has it. The offsets are \<open>int64\<close> and \<open>rb.end++\<close> wraps: after
  \<open>Reset(2^63 - 1)\<close> a \<open>Write\<close> leaves \<open>rb.start = 2^63 - 1\<close> and \<open>rb.end = -2^63\<close>, so
  that \<open>start \<le> end\<close> fails.
\<close>

theorem window_inv_wraps:
  "NewRingBuffer 10 0 = Inr (rb_at 0) \<and>
   run (rb_at 0) [OpReset 0x7FFFFFFFFFFFFFFF, OpWrite (Some \<lparr>Id' = 0x7FFFFFFFFFFFFFFF\<rparr>)] =
     Inr rb_wrapped \<and>
   \<not> rb_start rb_wrapped \<le>s rb_end rb_wrapped \<and>
   \<not> window_inv rb_wrapped"
  by code_simp

text \<open>
  Claim C7, amended: for every buffer created by \<open>NewRingBuffer\<close> and every sequence of
  \<open>Write\<close> and \<open>Reset\<close> operations in which no \<open>Write\<close> is made at \<open>end = 2^63 - 1\<close>, the
  window invariant \<open>start \<le> end\<close> and \<open>end - start \<le> N\<close> holds after each operation
  that returns. (The sequence is any sequence, so the theorem speaks of each of its
  prefixes.)
\<close>

theorem window_inv_kept:
  "NewRingBuffer sz start = Inr rb0 \<Longrightarrow> no_wrap rb0 ops \<Longrightarrow> run rb0 ops = Inr rb \<Longrightarrow>
   window_inv rb"
  using NewRingBuffer_window_inv run_window_inv by blast

theorem window_inv_kept_witness:
  "NewRingBuffer 2 0 = Inr rb_small \<and> no_wrap rb_small three_writes \<and>
   run rb_small three_writes = Inr rb_rotated \<and> window_inv rb_rotated"
proof -
  have new: "NewRingBuffer 2 0 = Inr rb_small"
    by code_simp
  have nw: "no_wrap rb_small three_writes"
    by code_simp
  have run: "run rb_small three_writes = Inr rb_rotated"
    by code_simp
  show ?thesis
    using new nw run window_inv_kept [OF new nw run] by simp
qed

section \<open>The buffer holds the retained items\<close>























lemma rb_four_reached:
  "run (rb_at 5) [OpWrite (Some \<lparr>Id' = 5\<rparr>), OpWrite (Some \<lparr>Id' = 6\<rparr>),
                  OpWrite (Some \<lparr>Id' = 7\<rparr>), OpWrite (Some \<lparr>Id' = 8\<rparr>)] = Inr rb_four"
  by code_simp




end
